theory Spec2Isabelle
  imports Main "HOL-Library.AList" "HOL-Library.Sublist"
begin

section \<open>Python values\<close>

text \<open>
  The payload of an approval request is a \<open>Dict[str, Any]\<close>. The values that the
  repository puts into such dictionaries are \<open>None\<close>, strings, lists and nested
  dictionaries. A dictionary is an association list in insertion order:
  \<open>map_of\<close> is \<open>dict.get\<close>, \<open>AList.update\<close> is item assignment (an existing key
  keeps its position, a new key goes to the end), \<open>AList.delete\<close> is \<open>del\<close>.
\<close>

datatype pyval = PyNone | PyStr string | PyList "pyval list" | PyDict "(string \<times> pyval) list"

type_synonym pydict = "(string \<times> pyval) list"

section \<open>The approval system: \<^verbatim>\<open>app/api/approval_system.py\<close>\<close>

datatype ApprovalType =
  TODO | SUBAGENT_TASK | GET_DOCUMENTS | GET_PAGE_TEXT | GET_PAGE_IMAGE
  | WRITE_FILE | EDIT_FILE | INTERNET_SEARCH | URL_CONTENT

datatype ApprovalStatus = PENDING | APPROVED | EDITED | REJECTED

record ApprovalRequest =
  req_id :: string
  req_type :: ApprovalType
  timestamp :: nat
  status :: ApprovalStatus
  data :: pydict
  agent_name :: string
  description :: string
  highlights :: "pydict option"

text \<open>
  \<open>ApprovalRequest\<close> objects are mutable and shared: \<open>respond_to_approval\<close> assigns
  to the fields of the object that the pending dictionary holds, and then appends
  that same object to the history list. The model keeps the objects in an explicit
  store; the pending dictionary and the history list hold references (indices into
  the store). A new object gets the next free index.
\<close>

record HumanApprovalSystem =
  objects :: "ApprovalRequest list"
  pending_approvals :: "(string \<times> nat) list"
  approval_history :: "nat list"

definition HumanApprovalSystem_init :: HumanApprovalSystem where
  "HumanApprovalSystem_init = \<lparr>objects = [], pending_approvals = [], approval_history = []\<rparr>"

text \<open>
  \<open>create_approval_request\<close>: the fresh identifier (\<open>str(uuid.uuid4())\<close>) and the
  clock reading (\<open>datetime.now()\<close>) come from the environment and are arguments here.
  Returns the reference to the new request.
\<close>

definition create_approval_request ::
  "string \<Rightarrow> nat \<Rightarrow> ApprovalType \<Rightarrow> pydict \<Rightarrow> string \<Rightarrow> string \<Rightarrow> pydict option
     \<Rightarrow> HumanApprovalSystem \<Rightarrow> nat \<times> HumanApprovalSystem" where
  "create_approval_request uuid now approval_type dat agent descr hl s =
     (let request = \<lparr>req_id = uuid, req_type = approval_type, timestamp = now,
                      status = PENDING, data = dat, agent_name = agent,
                      description = descr, highlights = hl\<rparr>;
          r = length (objects s)
      in (r, s\<lparr>objects := objects s @ [request],
               pending_approvals := AList.update (req_id request) r (pending_approvals s)\<rparr>))"

definition get_pending_approvals :: "HumanApprovalSystem \<Rightarrow> nat list" where
  "get_pending_approvals s = map snd (pending_approvals s)"

definition get_approval_request :: "string \<Rightarrow> HumanApprovalSystem \<Rightarrow> nat option" where
  "get_approval_request request_id s = map_of (pending_approvals s) request_id"

text \<open>
  \<open>respond_to_approval\<close>. The test \<open>not request\<close> is true only for \<open>None\<close>: a
  pydantic model object is always truthy. The test \<open>modified_data\<close> is false for
  \<open>None\<close> and for the empty dictionary. The \<open>feedback\<close> argument is not used by the
  source.
\<close>

definition respond_to_approval ::
  "string \<Rightarrow> ApprovalStatus \<Rightarrow> pydict option \<Rightarrow> string option
     \<Rightarrow> HumanApprovalSystem \<Rightarrow> nat option \<times> HumanApprovalSystem" where
  "respond_to_approval request_id st modified_data feedback s =
     (case map_of (pending_approvals s) request_id of
        None \<Rightarrow> (None, s)
      | Some r \<Rightarrow>
          (let request = (objects s ! r)\<lparr>status := st\<rparr>;
               request = (case modified_data of
                            None \<Rightarrow> request
                          | Some kvs \<Rightarrow>
                              if st = EDITED \<and> kvs \<noteq> [] then request\<lparr>data := kvs\<rparr>
                              else request)
           in (Some r,
               s\<lparr>objects := (objects s)[r := request],
                 approval_history := approval_history s @ [r],
                 pending_approvals := AList.delete request_id (pending_approvals s)\<rparr>)))"

definition clear_pending_approvals :: "HumanApprovalSystem \<Rightarrow> HumanApprovalSystem" where
  "clear_pending_approvals s =
     s\<lparr>approval_history := approval_history s @ map snd (pending_approvals s),
       pending_approvals := []\<rparr>"

text \<open>
  Python's \<open>xs[start:]\<close> for an integer \<open>start\<close>: a negative start counts from the
  end, and the result is clipped to the list.
\<close>

definition py_slice_from :: "int \<Rightarrow> 'a list \<Rightarrow> 'a list" where
  "py_slice_from start xs =
     (let n = int (length xs);
          i = (if start < 0 then max (start + n) 0 else min start n)
      in drop (nat i) xs)"

definition get_approval_history :: "int \<Rightarrow> HumanApprovalSystem \<Rightarrow> nat list" where
  "get_approval_history limit s = py_slice_from (- limit) (approval_history s)"

text \<open>The request object behind a reference, as a reader of the system sees it.\<close>

definition deref :: "HumanApprovalSystem \<Rightarrow> nat \<Rightarrow> ApprovalRequest" where
  "deref s r = objects s ! r"

subsection \<open>Sequences of calls\<close>

datatype approval_call =
  Create string nat ApprovalType pydict string string "pydict option"
  | Respond string ApprovalStatus "pydict option" "string option"
  | ClearPending

fun call :: "approval_call \<Rightarrow> HumanApprovalSystem \<Rightarrow> HumanApprovalSystem" where
  "call (Create uuid now ty dat agent descr hl) s =
     snd (create_approval_request uuid now ty dat agent descr hl s)"
| "call (Respond request_id st md fb) s = snd (respond_to_approval request_id st md fb s)"
| "call ClearPending s = clear_pending_approvals s"

fun calls :: "approval_call list \<Rightarrow> HumanApprovalSystem \<Rightarrow> HumanApprovalSystem" where
  "calls [] s = s"
| "calls (c # cs) s = calls cs (call c s)"

text \<open>
  The invariant of the store: every reference held by the system points into the
  store, no object is held twice by the pending dictionary, no object is both
  pending and in the history, and a pending object has status \<open>PENDING\<close>.
\<close>

definition store_inv :: "HumanApprovalSystem \<Rightarrow> bool" where
  "store_inv s \<longleftrightarrow>
     (\<forall>r \<in> snd ` set (pending_approvals s). r < length (objects s)) \<and>
     (\<forall>r \<in> set (approval_history s). r < length (objects s)) \<and>
     distinct (map snd (pending_approvals s)) \<and>
     snd ` set (pending_approvals s) \<inter> set (approval_history s) = {} \<and>
     (\<forall>r \<in> snd ` set (pending_approvals s). status (objects s ! r) = PENDING)"

subsection \<open>Example states\<close>

text \<open>
  One pending file-write request (Scenario B's request), and a history of two
  resolved requests.
\<close>

definition example_one_pending :: HumanApprovalSystem where
  "example_one_pending =
     calls [Create ''req-1'' 0 WRITE_FILE
              [(''file_path'', PyStr ''report.md''), (''content'', PyStr ''# R'')]
              ''agent'' ''agent wants to write file: report.md''
              (Some [(''file'', PyStr ''report.md'')])]
       HumanApprovalSystem_init"

definition example_two_resolved :: HumanApprovalSystem where
  "example_two_resolved =
     calls [Create ''req-1'' 0 WRITE_FILE [(''file_path'', PyStr ''report.md'')] ''agent'' ''d1'' None,
            Create ''req-2'' 1 INTERNET_SEARCH [(''query'', PyStr ''case law'')] ''agent'' ''d2'' None,
            Respond ''req-1'' APPROVED None None,
            Respond ''req-2'' REJECTED None None]
       HumanApprovalSystem_init"

section \<open>The todo list: \<^verbatim>\<open>TodoListMiddleware\<close> in \<^verbatim>\<open>app/agents/base_agent.py\<close>\<close>

text \<open>
  A todo is a \<open>Dict[str, str]\<close> with the keys \<open>task\<close> and \<open>status\<close>; the
  middleware's state is the list \<open>self.todos\<close>. Reading a missing key raises
  \<open>KeyError\<close>. Python strings are modelled as byte strings in UTF-8.
\<close>

datatype py_error = KeyError string

type_synonym todo = "(string \<times> string) list"

definition TodoListMiddleware_init :: "todo list" where
  "TodoListMiddleware_init = []"

text \<open>\<open>add_todo(task, status="pending")\<close>: the caller passes the default explicitly.\<close>

definition add_todo :: "string \<Rightarrow> string \<Rightarrow> todo list \<Rightarrow> todo list" where
  "add_todo task st todos = todos @ [[(''task'', task), (''status'', st)]]"

definition update_todo :: "int \<Rightarrow> string \<Rightarrow> todo list \<Rightarrow> todo list" where
  "update_todo index st todos =
     (if 0 \<le> index \<and> index < int (length todos)
      then todos[nat index := AList.update ''status'' st (todos ! nat index)]
      else todos)"

definition get_todos :: "todo list \<Rightarrow> todo list" where
  "get_todos todos = todos"

text \<open>\<open>str(n)\<close> for a non-negative integer: its decimal digits.\<close>

definition digit :: "nat \<Rightarrow> char" where
  "digit d = ''0123456789'' ! d"

function str_nat :: "nat \<Rightarrow> string" where
  "str_nat n = (if n < 10 then [digit n] else str_nat (n div 10) @ [digit (n mod 10)])"
  by pat_completeness auto
termination
  by (relation "measure id") auto

declare str_nat.simps [simp del]

text \<open>The two glyphs of \<open>format_todos\<close>: U+2713 and U+25CB, in UTF-8.\<close>

definition check_mark :: string where
  "check_mark = [CHR 0xE2, CHR 0x9C, CHR 0x93]"

definition white_circle :: string where
  "white_circle = [CHR 0xE2, CHR 0x97, CHR 0x8B]"

text \<open>
  The loop of \<open>format_todos\<close> over \<open>enumerate(self.todos)\<close>, with the index \<open>i\<close> and
  the text built so far. The source reads \<open>todo["status"]\<close> first, then
  \<open>todo['task']\<close>.
\<close>

fun format_loop :: "nat \<Rightarrow> todo list \<Rightarrow> string \<Rightarrow> py_error + string" where
  "format_loop i [] formatted = Inr formatted"
| "format_loop i (todo # rest) formatted =
     (case map_of todo ''status'' of
        None \<Rightarrow> Inl (KeyError ''status'')
      | Some st \<Rightarrow>
          (let status_icon = (if st = ''completed'' then check_mark else white_circle) in
           case map_of todo ''task'' of
             None \<Rightarrow> Inl (KeyError ''task'')
           | Some task \<Rightarrow>
               format_loop (i + 1) rest
                 (formatted @ str_nat (i + 1) @ ''. ['' @ status_icon @ ''] '' @ task
                    @ '' ('' @ st @ '')'' @ ''\<newline>'')))"

definition format_todos :: "todo list \<Rightarrow> py_error + string" where
  "format_todos todos =
     (if todos = [] then Inr ''No todos yet.''
      else format_loop 0 todos (''Current todos:'' @ ''\<newline>''))"

text \<open>
  The lines of a text, for speaking about the output of \<open>format_todos\<close>: the
  pieces between the line feeds. Line 1 of a text is \<open>lines_of text ! 0\<close>.
\<close>

fun lines_of :: "string \<Rightarrow> string list" where
  "lines_of [] = [[]]"
| "lines_of (c # cs) =
     (if c = CHR 0x0A then [] # lines_of cs
      else (case lines_of cs of [] \<Rightarrow> [[c]] | l # ls \<Rightarrow> (c # l) # ls))"

definition scenario_A :: "todo list" where
  "scenario_A =
     update_todo 0 ''completed'' (add_todo ''Review contract X'' ''pending'' TodoListMiddleware_init)"

section \<open>The workspace: \<^verbatim>\<open>FilesystemMiddleware\<close> in \<^verbatim>\<open>app/agents/base_agent.py\<close>\<close>

subsection \<open>The file system under the middleware\<close>

text \<open>
  The middleware hands path strings to \<open>open\<close> and \<open>os.makedirs\<close>. What these do is
  modelled as a POSIX file system without symbolic links, without permissions and
  without limits on the length of names: a tree of nodes addressed by the list of
  component names from the root directory. The root directory is the empty list and
  always exists.
\<close>

datatype node = File string | Dir

record filesystem =
  cwd :: "string list"
  nodes :: "string list \<rightharpoonup> node"

text \<open>
  The exceptions of the operating system, each with the file name it reports, and the
  \<open>ValueError\<close> with which Python refuses a path that holds a NUL character.
\<close>

datatype os_error =
  FileNotFoundError string | NotADirectoryError string
  | IsADirectoryError string | FileExistsError string
  | ValueError string

definition embedded_null :: os_error where
  "embedded_null = ValueError ''embedded null byte''"

text \<open>
  \<open>str(e)\<close> for these exceptions ends with the \<open>repr\<close> of the file name.
  \<open>repr\<close> of a string puts it in single quotes, or in double quotes when it holds
  a single quote and no double quote; the quote in use and the backslash are escaped
  with a backslash, tab, line feed and carriage return are written \<open>\t\<close>,
  \<open>\n\<close>, \<open>\r\<close>, and any other control character as \<open>\x\<close> with two
  hexadecimal digits. This is the exact rule for ASCII strings (and for strings whose
  other characters are all printable, which \<open>repr\<close> leaves as they are).
  \<open>ascii_path\<close> holds for a string of ASCII characters other than NUL.
\<close>

definition ascii_path :: "string \<Rightarrow> bool" where
  "ascii_path s \<longleftrightarrow> (\<forall>c \<in> set s. 0 < (of_char c :: nat) \<and> (of_char c :: nat) < 128)"

definition hex_digit :: "nat \<Rightarrow> char" where
  "hex_digit d = ''0123456789abcdef'' ! d"

definition repr_char :: "char \<Rightarrow> char \<Rightarrow> string" where
  "repr_char quote c =
     (if c = quote \<or> c = CHR 0x5C then [CHR 0x5C, c]
      else if c = CHR 0x09 then [CHR 0x5C, CHR ''t'']
      else if c = CHR 0x0A then [CHR 0x5C, CHR ''n'']
      else if c = CHR 0x0D then [CHR 0x5C, CHR ''r'']
      else if (of_char c :: nat) < 32 \<or> c = CHR 0x7F
        then [CHR 0x5C, CHR ''x'', hex_digit (of_char c div 16), hex_digit (of_char c mod 16)]
      else [c])"

definition py_repr :: "string \<Rightarrow> string" where
  "py_repr s =
     (let quote = (if CHR 0x27 \<in> set s \<and> CHR 0x22 \<notin> set s then CHR 0x22 else CHR 0x27)
      in [quote] @ concat (map (repr_char quote) s) @ [quote])"

fun str_exc :: "os_error \<Rightarrow> string" where
  "str_exc (FileNotFoundError f) = ''[Errno 2] No such file or directory: '' @ py_repr f"
| "str_exc (NotADirectoryError f) = ''[Errno 20] Not a directory: '' @ py_repr f"
| "str_exc (IsADirectoryError f) = ''[Errno 21] Is a directory: '' @ py_repr f"
| "str_exc (FileExistsError f) = ''[Errno 17] File exists: '' @ py_repr f"
| "str_exc (ValueError msg) = msg"

text \<open>The components of a path string: the pieces between the slashes.\<close>

fun split_slash :: "string \<Rightarrow> string list" where
  "split_slash [] = [[]]"
| "split_slash (c # cs) =
     (if c = CHR ''/'' then [] # split_slash cs
      else (case split_slash cs of [] \<Rightarrow> [[c]] | w # ws \<Rightarrow> (c # w) # ws))"

fun join_slash :: "string list \<Rightarrow> string" where
  "join_slash [] = []"
| "join_slash [w] = w"
| "join_slash (w # ws) = w @ ''/'' @ join_slash ws"

text \<open>A path that starts with a slash is resolved from the root, any other from \<open>cwd\<close>.\<close>

definition start_dir :: "filesystem \<Rightarrow> string \<Rightarrow> string list" where
  "start_dir fs p = (case p of [] \<Rightarrow> cwd fs | c # _ \<Rightarrow> if c = CHR ''/'' then [] else cwd fs)"

text \<open>
  Walking through directory components from the directory \<open>cur\<close>: an empty component
  and \<open>.\<close> stay, \<open>..\<close> goes to the parent (the root is its own parent), a name
  enters that subdirectory, which has to exist. The error is the errno: 2 for a
  missing directory, 20 for a file in the place of a directory.
\<close>

fun walk :: "filesystem \<Rightarrow> string list \<Rightarrow> string list \<Rightarrow> nat + string list" where
  "walk fs cur [] = Inr cur"
| "walk fs cur (c # cs) =
     (if c = [] \<or> c = ''.'' then walk fs cur cs
      else if c = ''..'' then walk fs (butlast cur) cs
      else (case nodes fs (cur @ [c]) of
              Some Dir \<Rightarrow> walk fs (cur @ [c]) cs
            | Some (File _) \<Rightarrow> Inl 20
            | None \<Rightarrow> Inl 2))"

text \<open>
  \<open>open(p, "r")\<close> followed by \<open>f.read()\<close>, and \<open>open(p, "w")\<close> followed by
  \<open>f.write(content)\<close>. The directory part of the path has to resolve; the last
  component names the file. A path with a NUL character is refused before the file
  system is asked. The content of a file is its text: files are taken to
  hold valid UTF-8 without carriage returns, so that the decoding and the newline
  translation of text mode leave the text as it is.
\<close>

definition walk_error :: "nat \<Rightarrow> string \<Rightarrow> os_error" where
  "walk_error errno p = (if errno = 20 then NotADirectoryError p else FileNotFoundError p)"

definition names_directory :: "string \<Rightarrow> bool" where
  "names_directory name \<longleftrightarrow> name = [] \<or> name = ''.'' \<or> name = ''..''"

definition os_open_read :: "filesystem \<Rightarrow> string \<Rightarrow> os_error + string" where
  "os_open_read fs p =
     (if CHR 0x00 \<in> set p then Inl embedded_null
      else if p = [] then Inl (FileNotFoundError p)
      else case walk fs (start_dir fs p) (butlast (split_slash p)) of
             Inl errno \<Rightarrow> Inl (walk_error errno p)
           | Inr d \<Rightarrow>
               (let name = last (split_slash p) in
                if names_directory name then Inl (IsADirectoryError p)
                else case nodes fs (d @ [name]) of
                       Some (File content) \<Rightarrow> Inr content
                     | Some Dir \<Rightarrow> Inl (IsADirectoryError p)
                     | None \<Rightarrow> Inl (FileNotFoundError p)))"

definition os_open_write :: "filesystem \<Rightarrow> string \<Rightarrow> string \<Rightarrow> os_error + filesystem" where
  "os_open_write fs p content =
     (if CHR 0x00 \<in> set p then Inl embedded_null
      else if p = [] then Inl (FileNotFoundError p)
      else case walk fs (start_dir fs p) (butlast (split_slash p)) of
             Inl errno \<Rightarrow> Inl (walk_error errno p)
           | Inr d \<Rightarrow>
               (let name = last (split_slash p) in
                if names_directory name then Inl (IsADirectoryError p)
                else case nodes fs (d @ [name]) of
                       Some Dir \<Rightarrow> Inl (IsADirectoryError p)
                     | _ \<Rightarrow> Inr (fs\<lparr>nodes := (nodes fs)(d @ [name] \<mapsto> File content)\<rparr>)))"

text \<open>
  \<open>os.makedirs(name, exist_ok=True)\<close>: walks like \<open>walk\<close> and creates each directory
  that is missing; the directories created before an error stay. A file in the way
  is an error. When nothing but empty components follows the file, the error is
  \<open>FileExistsError\<close> with the whole name; otherwise it is \<open>NotADirectoryError\<close>
  with the name up to the next non-empty component, the directory that could not be
  created. A name with a NUL character is refused when its turn comes to be
  created. \<open>seen\<close> holds the components walked so far.
\<close>

fun mkdir_p ::
  "filesystem \<Rightarrow> string list \<Rightarrow> string list \<Rightarrow> string list \<Rightarrow> os_error option \<times> filesystem" where
  "mkdir_p fs cur seen [] = (None, fs)"
| "mkdir_p fs cur seen (c # cs) =
     (if c = [] \<or> c = ''.'' then mkdir_p fs cur (seen @ [c]) cs
      else if c = ''..'' then mkdir_p fs (butlast cur) (seen @ [c]) cs
      else if CHR 0x00 \<in> set c then (Some embedded_null, fs)
      else (case nodes fs (cur @ [c]) of
              Some Dir \<Rightarrow> mkdir_p fs (cur @ [c]) (seen @ [c]) cs
            | Some (File _) \<Rightarrow>
                (case dropWhile (\<lambda>x. x = []) cs of
                   [] \<Rightarrow> (Some (FileExistsError (join_slash (seen @ c # cs))), fs)
                 | x # _ \<Rightarrow>
                     (if CHR 0x00 \<in> set x then (Some embedded_null, fs)
                      else (Some (NotADirectoryError
                              (join_slash (seen @ c # takeWhile (\<lambda>x. x = []) cs @ [x]))), fs)))
            | None \<Rightarrow>
                mkdir_p (fs\<lparr>nodes := (nodes fs)(cur @ [c] \<mapsto> Dir)\<rparr>) (cur @ [c]) (seen @ [c]) cs))"

definition os_makedirs :: "filesystem \<Rightarrow> string \<Rightarrow> os_error option \<times> filesystem" where
  "os_makedirs fs name =
     (if name = [] then (Some (FileNotFoundError name), fs)
      else mkdir_p fs (start_dir fs name) [] (split_slash name))"

text \<open>
  \<open>os.path.dirname\<close>: the path up to and including its last slash, and then without
  the trailing slashes unless it consists of slashes only.
\<close>

definition dirname :: "string \<Rightarrow> string" where
  "dirname p =
     (let head = rev (dropWhile (\<lambda>c. c \<noteq> CHR ''/'') (rev p))
      in if head \<noteq> [] \<and> \<not> (\<forall>c \<in> set head. c = CHR ''/'')
         then rev (dropWhile (\<lambda>c. c = CHR ''/'') (rev head)) else head)"

subsection \<open>The middleware\<close>

record FilesystemMiddleware =
  base_path :: string

text \<open>
  \<open>__init__(base_path="./data/agent_workspace")\<close> creates the workspace directory;
  an exception of \<open>os.makedirs\<close> leaves the constructor.
\<close>

definition default_base_path :: string where
  "default_base_path = ''./data/agent_workspace''"

definition FilesystemMiddleware_init ::
  "string \<Rightarrow> filesystem \<Rightarrow> (os_error + FilesystemMiddleware) \<times> filesystem" where
  "FilesystemMiddleware_init bp fs =
     (case os_makedirs fs bp of
        (Some e, fs') \<Rightarrow> (Inl e, fs')
      | (None, fs') \<Rightarrow> (Inr \<lparr>base_path = bp\<rparr>, fs'))"

text \<open>
  \<open>read_file\<close> and \<open>write_file\<close>. The full path is the f-string
  \<open>{self.base_path}/{file_path}\<close>. Every exception becomes an ordinary return
  value, a string that starts with \<open>Error reading file: \<close> or
  \<open>Error writing file: \<close>.
\<close>

definition read_file :: "FilesystemMiddleware \<Rightarrow> string \<Rightarrow> filesystem \<Rightarrow> string" where
  "read_file self file_path fs =
     (let full_path = base_path self @ ''/'' @ file_path in
      case os_open_read fs full_path of
        Inr content \<Rightarrow> content
      | Inl e \<Rightarrow> ''Error reading file: '' @ str_exc e)"

definition write_file ::
  "FilesystemMiddleware \<Rightarrow> string \<Rightarrow> string \<Rightarrow> filesystem \<Rightarrow> string \<times> filesystem" where
  "write_file self file_path content fs =
     (let full_path = base_path self @ ''/'' @ file_path in
      case os_makedirs fs (dirname full_path) of
        (Some e, fs') \<Rightarrow> (''Error writing file: '' @ str_exc e, fs')
      | (None, fs') \<Rightarrow>
          (case os_open_write fs' full_path content of
             Inl e \<Rightarrow> (''Error writing file: '' @ str_exc e, fs')
           | Inr fs'' \<Rightarrow> (''File written successfully: '' @ file_path, fs'')))"

text \<open>
  The workspace root of a middleware: the directory that the prefix
  \<open>{self.base_path}/\<close> of every full path resolves to. A node is inside the
  workspace when the root is a prefix of its address.
\<close>

definition workspace_root :: "FilesystemMiddleware \<Rightarrow> filesystem \<Rightarrow> nat + string list" where
  "workspace_root self fs =
     walk fs (start_dir fs (base_path self @ ''/'')) (split_slash (base_path self))"

subsection \<open>Example file systems\<close>

text \<open>
  The process runs in \<open>/app\<close>; the workspace \<open>/app/data/agent_workspace\<close> is empty;
  next to it lies a file \<open>/app/data/secret.txt\<close> that is not part of the workspace.
\<close>

definition example_fs :: filesystem where
  "example_fs =
     \<lparr>cwd = [''app''],
      nodes = [[''app''] \<mapsto> Dir,
               [''app'', ''data''] \<mapsto> Dir,
               [''app'', ''data'', ''agent_workspace''] \<mapsto> Dir,
               [''app'', ''data'', ''secret.txt''] \<mapsto> File ''api key''] \<rparr>"

definition example_mw :: FilesystemMiddleware where
  "example_mw = \<lparr>base_path = default_base_path\<rparr>"

text \<open>
  The same file system with a file \<open>report.md\<close> in the workspace whose content is
  the text that \<open>read_file\<close> produces for a missing \<open>report.md\<close>.
\<close>

definition example_fs_report :: filesystem where
  "example_fs_report =
     example_fs\<lparr>nodes := (nodes example_fs)
       ([''app'', ''data'', ''agent_workspace'', ''report.md''] \<mapsto>
          File (''Error reading file: '' @
                str_exc (FileNotFoundError ''./data/agent_workspace/report.md'')))\<rparr>"

section \<open>One session: approval requests and the workspace\<close>








section \<open>The coordinator: \<^verbatim>\<open>LegalRiskAnalysisAgent\<close> in \<^verbatim>\<open>app/agents/legal_agents.py\<close>\<close>

text \<open>
  The two delegation tools call \<open>run\<close> of a subordinate agent, which is the loop of
  the language model and lies outside this repository: it is a parameter here, a
  function from the input text to the result dictionary. The state of the
  coordinator records, for each subordinate, the inputs with which its loop was
  entered. The source keeps no counter and no quota for a subordinate; the limit
  \<open>use=1\<close> of the report agent appears in the docstrings and in the prompt only.
\<close>

record coordinator =
  analysis_runs :: "string list"
  create_report_runs :: "string list"

definition coordinator_init :: coordinator where
  "coordinator_init = \<lparr>analysis_runs = [], create_report_runs = []\<rparr>"

definition dict_get_default :: "pydict \<Rightarrow> string \<Rightarrow> pyval \<Rightarrow> pyval" where
  "dict_get_default d k dflt = (case map_of d k of None \<Rightarrow> dflt | Some v \<Rightarrow> v)"

definition delegate_to_analysis ::
  "(string \<Rightarrow> pydict) \<Rightarrow> string \<Rightarrow> coordinator \<Rightarrow> pyval \<times> coordinator" where
  "delegate_to_analysis run task s =
     (let result = run task
      in (dict_get_default result ''output'' (PyStr ''Analysis completed''),
          s\<lparr>analysis_runs := analysis_runs s @ [task]\<rparr>))"

definition delegate_to_create_report ::
  "(string \<Rightarrow> pydict) \<Rightarrow> string \<Rightarrow> coordinator \<Rightarrow> pyval \<times> coordinator" where
  "delegate_to_create_report run analysis_summary s =
     (let input_text =
            ''Create a comprehensive legal risk analysis report based on:'' @ ''\<newline>''
              @ ''\<newline>'' @ analysis_summary;
          result = run input_text
      in (dict_get_default result ''output'' (PyStr ''Report created''),
          s\<lparr>create_report_runs := create_report_runs s @ [input_text]\<rparr>))"

text \<open>A sequence of delegation tool calls of one session, with the results returned.\<close>

datatype delegation = ToAnalysis string | ToCreateReport string

fun delegate ::
  "(string \<Rightarrow> pydict) \<Rightarrow> (string \<Rightarrow> pydict) \<Rightarrow> delegation \<Rightarrow> coordinator
     \<Rightarrow> pyval \<times> coordinator" where
  "delegate run_analysis run_report (ToAnalysis task) s = delegate_to_analysis run_analysis task s"
| "delegate run_analysis run_report (ToCreateReport summary) s =
     delegate_to_create_report run_report summary s"

fun delegate_all ::
  "(string \<Rightarrow> pydict) \<Rightarrow> (string \<Rightarrow> pydict) \<Rightarrow> delegation list \<Rightarrow> coordinator
     \<Rightarrow> pyval list \<times> coordinator" where
  "delegate_all run_analysis run_report [] s = ([], s)"
| "delegate_all run_analysis run_report (d # ds) s =
     (let (out, s') = delegate run_analysis run_report d s;
          (outs, s'') = delegate_all run_analysis run_report ds s'
      in (out # outs, s''))"

fun is_report_delegation :: "delegation \<Rightarrow> bool" where
  "is_report_delegation (ToCreateReport _) = True"
| "is_report_delegation (ToAnalysis _) = False"

definition example_report_agent :: "string \<Rightarrow> pydict" where
  "example_report_agent input_text = [(''input'', PyStr input_text), (''output'', PyStr ''# Report'')]"

definition example_analysis_agent :: "string \<Rightarrow> pydict" where
  "example_analysis_agent input_text = [(''input'', PyStr input_text), (''output'', PyStr ''findings'')]"

section \<open>Properties of the approval system\<close>

lemma store_inv_init: "store_inv HumanApprovalSystem_init"
  by (simp add: store_inv_def HumanApprovalSystem_init_def)

lemma update_vals: "snd ` set (AList.update k v al) \<subseteq> insert v (snd ` set al)"
  by (induction al) auto

lemma distinct_vals_update:
  "distinct (map snd al) \<Longrightarrow> v \<notin> snd ` set al \<Longrightarrow> distinct (map snd (AList.update k v al))"
proof (induction al)
  case Nil
  then show ?case by simp
next
  case (Cons p al)
  obtain k' v' where p: "p = (k', v')" by (cases p)
  have sub: "snd ` set (AList.update k v al) \<subseteq> insert v (snd ` set al)"
    by (rule update_vals)
  from Cons.prems p have d: "distinct (map snd al)" "v' \<notin> snd ` set al"
    and n: "v \<noteq> v'" "v \<notin> snd ` set al" by auto
  have IH: "distinct (map snd (AList.update k v al))" using Cons.IH d(1) n(2) by blast
  show ?case
  proof (cases "k' = k")
    case True
    then show ?thesis using p d n by simp
  next
    case False
    have "v' \<notin> snd ` set (AList.update k v al)" using sub d(2) n(1) by blast
    then show ?thesis using False p IH by simp
  qed
qed

lemma delete_vals: "set (AList.delete k al) \<subseteq> set al"
  by (auto simp: AList.delete_eq)

lemma distinct_vals_delete: "distinct (map snd al) \<Longrightarrow> distinct (map snd (AList.delete k al))"
  by (simp add: AList.delete_eq distinct_map_filter)

lemma deleted_val_gone:
  assumes "distinct (map snd al)" and "map_of al k = Some r"
  shows "r \<notin> snd ` set (AList.delete k al)"
proof
  assume "r \<in> snd ` set (AList.delete k al)"
  then obtain k' where k': "(k', r) \<in> set al" "k' \<noteq> k"
    by (auto simp: AList.delete_eq)
  from assms(2) have "(k, r) \<in> set al" by (rule map_of_SomeD)
  with k' assms(1) show False
    by (metis distinct_map inj_onD prod.inject snd_conv)
qed

lemma create_fields:
  "objects (snd (create_approval_request uuid now ty dat agent descr hl s)) =
     objects s @ [\<lparr>req_id = uuid, req_type = ty, timestamp = now, status = PENDING,
                   data = dat, agent_name = agent, description = descr, highlights = hl\<rparr>]"
  "pending_approvals (snd (create_approval_request uuid now ty dat agent descr hl s)) =
     AList.update uuid (length (objects s)) (pending_approvals s)"
  "approval_history (snd (create_approval_request uuid now ty dat agent descr hl s)) =
     approval_history s"
  "fst (create_approval_request uuid now ty dat agent descr hl s) = length (objects s)"
  by (simp_all add: create_approval_request_def Let_def)

lemma store_inv_create:
  assumes "store_inv s"
  shows "store_inv (snd (create_approval_request uuid now ty dat agent descr hl s))"
proof -
  let ?r = "length (objects s)"
  let ?p = "AList.update uuid ?r (pending_approvals s)"
  from assms have a:
    "\<And>r. r \<in> snd ` set (pending_approvals s) \<Longrightarrow> r < ?r"
    "\<And>r. r \<in> set (approval_history s) \<Longrightarrow> r < ?r"
    "distinct (map snd (pending_approvals s))"
    "snd ` set (pending_approvals s) \<inter> set (approval_history s) = {}"
    "\<And>r. r \<in> snd ` set (pending_approvals s) \<Longrightarrow> status (objects s ! r) = PENDING"
    unfolding store_inv_def by blast+
  have fresh: "?r \<notin> snd ` set (pending_approvals s)" "?r \<notin> set (approval_history s)"
    using a(1,2) by blast+
  have sub: "\<And>r. r \<in> snd ` set ?p \<Longrightarrow> r = ?r \<or> r \<in> snd ` set (pending_approvals s)"
    using update_vals[of uuid ?r "pending_approvals s"] by blast
  have c1: "\<forall>r \<in> snd ` set ?p. r < length (objects s) + 1"
    using sub a(1) by fastforce
  have c2: "\<forall>r \<in> set (approval_history s). r < length (objects s) + 1"
    using a(2) by fastforce
  have c3: "distinct (map snd ?p)"
    using a(3) fresh(1) by (rule distinct_vals_update)
  have c4: "snd ` set ?p \<inter> set (approval_history s) = {}"
  proof (rule ccontr)
    assume "snd ` set ?p \<inter> set (approval_history s) \<noteq> {}"
    then obtain x where x: "x \<in> snd ` set ?p" "x \<in> set (approval_history s)" by blast
    from sub[OF x(1)] show False
    proof
      assume "x = ?r" with x(2) fresh(2) show False by simp
    next
      assume "x \<in> snd ` set (pending_approvals s)" with x(2) a(4) show False by blast
    qed
  qed
  have c5: "\<forall>r \<in> snd ` set ?p. status ((objects s @ [x]) ! r) = PENDING"
    if px: "status x = PENDING" for x
  proof
    fix r assume "r \<in> snd ` set ?p"
    from sub[OF this] show "status ((objects s @ [x]) ! r) = PENDING"
    proof
      assume "r = ?r" then show ?thesis using px by simp
    next
      assume r: "r \<in> snd ` set (pending_approvals s)"
      then have "r < ?r" by (rule a(1))
      then have "(objects s @ [x]) ! r = objects s ! r" by (simp add: nth_append)
      then show ?thesis using a(5)[OF r] by simp
    qed
  qed
  show ?thesis
    unfolding store_inv_def create_fields
  proof (intro conjI)
    show "\<forall>r\<in>snd ` set ?p. r < length (objects s @ [\<lparr>req_id = uuid, req_type = ty, timestamp = now, status = PENDING,
                   data = dat, agent_name = agent, description = descr, highlights = hl\<rparr>])"
      using c1 by simp
    show "\<forall>r\<in>set (approval_history s). r < length (objects s @ [\<lparr>req_id = uuid, req_type = ty, timestamp = now, status = PENDING,
                   data = dat, agent_name = agent, description = descr, highlights = hl\<rparr>])"
      using c2 by simp
    show "distinct (map snd ?p)" by (rule c3)
    show "snd ` set ?p \<inter> set (approval_history s) = {}" by (rule c4)
    show "\<forall>r\<in>snd ` set ?p. status ((objects s @ [\<lparr>req_id = uuid, req_type = ty, timestamp = now, status = PENDING,
                   data = dat, agent_name = agent, description = descr, highlights = hl\<rparr>]) ! r) = PENDING"
      by (rule c5) simp
  qed
qed

lemma respond_fields:
  assumes "map_of (pending_approvals s) request_id = Some r"
  shows "fst (respond_to_approval request_id st md fb s) = Some r"
    and "pending_approvals (snd (respond_to_approval request_id st md fb s)) =
           AList.delete request_id (pending_approvals s)"
    and "approval_history (snd (respond_to_approval request_id st md fb s)) =
           approval_history s @ [r]"
    and "length (objects (snd (respond_to_approval request_id st md fb s))) = length (objects s)"
    and "r' \<noteq> r \<Longrightarrow> objects (snd (respond_to_approval request_id st md fb s)) ! r' = objects s ! r'"
  using assms by (simp_all add: respond_to_approval_def Let_def split: option.splits)

lemma respond_absent:
  "map_of (pending_approvals s) request_id = None \<Longrightarrow>
     respond_to_approval request_id st md fb s = (None, s)"
  by (simp add: respond_to_approval_def)

lemma store_inv_respond:
  assumes "store_inv s"
  shows "store_inv (snd (respond_to_approval request_id st md fb s))"
proof (cases "map_of (pending_approvals s) request_id")
  case None
  then show ?thesis using assms by (simp add: respond_absent)
next
  case (Some r)
  let ?p = "AList.delete request_id (pending_approvals s)"
  let ?s' = "snd (respond_to_approval request_id st md fb s)"
  note f = respond_fields[OF Some, where st=st and md=md and fb=fb]
  from assms have a:
    "\<And>r. r \<in> snd ` set (pending_approvals s) \<Longrightarrow> r < length (objects s)"
    "\<And>r. r \<in> set (approval_history s) \<Longrightarrow> r < length (objects s)"
    "distinct (map snd (pending_approvals s))"
    "snd ` set (pending_approvals s) \<inter> set (approval_history s) = {}"
    "\<And>r. r \<in> snd ` set (pending_approvals s) \<Longrightarrow> status (objects s ! r) = PENDING"
    unfolding store_inv_def by blast+
  have sub: "\<And>x. x \<in> snd ` set ?p \<Longrightarrow> x \<in> snd ` set (pending_approvals s)"
    using delete_vals[of request_id "pending_approvals s"] by blast
  have gone: "r \<notin> snd ` set ?p"
    using a(3) Some by (rule deleted_val_gone)
  have rin: "r \<in> snd ` set (pending_approvals s)"
    using Some by (force dest: map_of_SomeD)
  have c1: "\<forall>x \<in> snd ` set ?p. x < length (objects s)"
    using sub a(1) by blast
  have c2: "\<forall>x \<in> set (approval_history s @ [r]). x < length (objects s)"
    using a(1,2) rin by auto
  have c3: "distinct (map snd ?p)"
    using a(3) by (rule distinct_vals_delete)
  have c4: "snd ` set ?p \<inter> set (approval_history s @ [r]) = {}"
    using sub a(4) gone by auto
  have c5: "\<forall>x \<in> snd ` set ?p. status (objects ?s' ! x) = PENDING"
  proof
    fix x assume x: "x \<in> snd ` set ?p"
    with gone have "x \<noteq> r" by blast
    then have "objects ?s' ! x = objects s ! x" by (rule f(5))
    with a(5)[OF sub[OF x]] show "status (objects ?s' ! x) = PENDING" by simp
  qed
  show ?thesis
    unfolding store_inv_def f(2) f(3) f(4)
    using c1 c2 c3 c4 c5 by blast
qed

lemma store_inv_clear: "store_inv s \<Longrightarrow> store_inv (clear_pending_approvals s)"
  unfolding store_inv_def clear_pending_approvals_def by auto

lemma store_inv_call: "store_inv s \<Longrightarrow> store_inv (call c s)"
  by (cases c) (simp_all add: store_inv_create store_inv_respond store_inv_clear)

lemma store_inv_calls: "store_inv s \<Longrightarrow> store_inv (calls cs s)"
  by (induction cs arbitrary: s) (simp_all add: store_inv_call)





lemma respond_status:
  assumes "map_of (pending_approvals s) request_id = Some r" and "r < length (objects s)"
  shows "status (deref (snd (respond_to_approval request_id st md fb s)) r) = st"
  using assms by (simp add: respond_to_approval_def deref_def Let_def split: option.splits)

lemma respond_data:
  assumes "map_of (pending_approvals s) request_id = Some r" and "r < length (objects s)"
  shows "data (deref (snd (respond_to_approval request_id st md fb s)) r) =
           (case md of None \<Rightarrow> data (deref s r)
            | Some kvs \<Rightarrow> if st = EDITED \<and> kvs \<noteq> [] then kvs else data (deref s r))"
  using assms by (simp add: respond_to_approval_def deref_def Let_def split: option.splits)

lemma pending_ref_in_store:
  "store_inv s \<Longrightarrow> map_of (pending_approvals s) request_id = Some r \<Longrightarrow> r < length (objects s)"
  unfolding store_inv_def by (force dest: map_of_SomeD)

subsection \<open>Evaluation of the example states\<close>

lemma example_one_pending_eval:
  "example_one_pending =
     \<lparr>objects = [\<lparr>req_id = ''req-1'', req_type = WRITE_FILE, timestamp = 0, status = PENDING,
                   data = [(''file_path'', PyStr ''report.md''), (''content'', PyStr ''# R'')],
                   agent_name = ''agent'', description = ''agent wants to write file: report.md'',
                   highlights = Some [(''file'', PyStr ''report.md'')]\<rparr>],
      pending_approvals = [(''req-1'', 0)], approval_history = []\<rparr>"
  by (simp add: example_one_pending_def create_approval_request_def HumanApprovalSystem_init_def)

lemma example_two_resolved_history: "approval_history example_two_resolved = [0, 1]"
  by (simp add: example_two_resolved_def create_approval_request_def respond_to_approval_def
      HumanApprovalSystem_init_def)

subsection \<open>Resolving a request\<close>



text \<open>
  Claim C10. \<open>respond_to_approval\<close> with an id that is not in the pending dictionary
  returns \<open>None\<close> and leaves the whole state as it was: the store of request
  objects, the pending dictionary and the history.
\<close>

theorem respond_unknown_id_no_effect:
  "map_of (pending_approvals s) request_id = None \<Longrightarrow>
     respond_to_approval request_id st md fb s = (None, s)"
  by (simp add: respond_to_approval_def)

theorem respond_unknown_id_no_effect_witness:
  "map_of (pending_approvals example_one_pending) ''req-9'' = None \<and>
   respond_to_approval ''req-9'' APPROVED None None example_one_pending = (None, example_one_pending)"
proof -
  have p: "map_of (pending_approvals example_one_pending) ''req-9'' = None"
    by (simp add: example_one_pending_eval)
  from respond_unknown_id_no_effect[OF p] p show ?thesis by blast
qed

subsection \<open>The payload of a resolved request\<close>

text \<open>
  \<open>EDITED\<close> does not require a replacement payload: without one, the request is
  resolved as \<open>EDITED\<close> all the same and carries its original payload.
\<close>

theorem edited_without_replacement_counterexample:
  "fst (respond_to_approval ''req-1'' EDITED None None example_one_pending) = Some 0 \<and>
   status (deref (snd (respond_to_approval ''req-1'' EDITED None None example_one_pending)) 0) = EDITED \<and>
   data (deref (snd (respond_to_approval ''req-1'' EDITED None None example_one_pending)) 0) =
     [(''file_path'', PyStr ''report.md''), (''content'', PyStr ''# R'')]"
  by (simp add: example_one_pending_eval respond_to_approval_def deref_def)

text \<open>
  Claim C5, amended. Resolving a pending request with \<open>EDITED\<close> and a non-empty
  replacement payload makes the replacement the payload of the resolved request. With
  \<open>EDITED\<close> and no replacement the call still succeeds, the status becomes
  \<open>EDITED\<close> and the original payload is kept. With any other status
  (\<open>APPROVED\<close>, \<open>REJECTED\<close>) the original payload is kept, whatever payload is
  supplied.
\<close>

theorem respond_payload:
  assumes "s = calls cs HumanApprovalSystem_init"
    and "map_of (pending_approvals s) request_id = Some r"
  shows "(st = EDITED \<and> md = Some kvs \<and> kvs \<noteq> [] \<longrightarrow>
            data (deref (snd (respond_to_approval request_id st md fb s)) r) = kvs) \<and>
         (st = EDITED \<and> md = None \<longrightarrow>
            fst (respond_to_approval request_id st md fb s) = Some r \<and>
            status (deref (snd (respond_to_approval request_id st md fb s)) r) = EDITED \<and>
            data (deref (snd (respond_to_approval request_id st md fb s)) r) = data (deref s r)) \<and>
         (st \<noteq> EDITED \<longrightarrow>
            data (deref (snd (respond_to_approval request_id st md fb s)) r) = data (deref s r))"
proof -
  have inv: "store_inv s" using assms(1) store_inv_calls[OF store_inv_init] by simp
  have lt: "r < length (objects s)" using inv assms(2) by (rule pending_ref_in_store)
  show ?thesis
    using respond_data[OF assms(2) lt, of st md fb] respond_status[OF assms(2) lt, of st md fb]
      respond_fields(1)[OF assms(2), of st md fb]
    by (auto split: option.splits)
qed

theorem respond_payload_witness:
  "map_of (pending_approvals example_one_pending) ''req-1'' = Some 0 \<and>
   data (deref (snd (respond_to_approval ''req-1'' EDITED (Some [(''file_path'', PyStr ''final.md'')]) None
                       example_one_pending)) 0) = [(''file_path'', PyStr ''final.md'')] \<and>
   data (deref (snd (respond_to_approval ''req-1'' EDITED None None example_one_pending)) 0) =
     data (deref example_one_pending 0) \<and>
   data (deref (snd (respond_to_approval ''req-1'' APPROVED (Some [(''file_path'', PyStr ''final.md'')]) None
                       example_one_pending)) 0) = data (deref example_one_pending 0) \<and>
   data (deref (snd (respond_to_approval ''req-1'' REJECTED (Some [(''file_path'', PyStr ''final.md'')]) None
                       example_one_pending)) 0) = data (deref example_one_pending 0)"
proof -
  have p: "map_of (pending_approvals example_one_pending) ''req-1'' = Some 0"
    by (simp add: example_one_pending_eval)
  note t = respond_payload[OF example_one_pending_def p]
  from t[of EDITED "Some [(''file_path'', PyStr ''final.md'')]" "[(''file_path'', PyStr ''final.md'')]" None]
  have 1: "data (deref (snd (respond_to_approval ''req-1'' EDITED (Some [(''file_path'', PyStr ''final.md'')]) None
                       example_one_pending)) 0) = [(''file_path'', PyStr ''final.md'')]" by simp
  from t[of EDITED None "[]" None]
  have 2: "data (deref (snd (respond_to_approval ''req-1'' EDITED None None example_one_pending)) 0) =
     data (deref example_one_pending 0)" by simp
  from t[of APPROVED "Some [(''file_path'', PyStr ''final.md'')]" "[]" None]
  have 3: "data (deref (snd (respond_to_approval ''req-1'' APPROVED (Some [(''file_path'', PyStr ''final.md'')]) None
                       example_one_pending)) 0) = data (deref example_one_pending 0)" by simp
  from t[of REJECTED "Some [(''file_path'', PyStr ''final.md'')]" "[]" None]
  have 4: "data (deref (snd (respond_to_approval ''req-1'' REJECTED (Some [(''file_path'', PyStr ''final.md'')]) None
                       example_one_pending)) 0) = data (deref example_one_pending 0)" by simp
  from p 1 2 3 4 show ?thesis by blast
qed

subsection \<open>Clearing the pending requests\<close>

text \<open>
  Claim C7. In every reachable state, \<open>clear_pending_approvals\<close> empties the pending
  dictionary and appends the requests that were pending, in the dictionary's order, to
  the history. The request objects are not touched: each of them is in the history
  with status \<open>PENDING\<close>.
\<close>

theorem clear_pending_keeps_status:
  assumes "s = calls cs HumanApprovalSystem_init"
  shows "pending_approvals (clear_pending_approvals s) = [] \<and>
         approval_history (clear_pending_approvals s) =
           approval_history s @ map snd (pending_approvals s) \<and>
         (\<forall>r \<in> snd ` set (pending_approvals s).
            deref (clear_pending_approvals s) r = deref s r \<and>
            status (deref (clear_pending_approvals s) r) = PENDING)"
proof -
  have inv: "store_inv s" using assms(1) store_inv_calls[OF store_inv_init] by simp
  then have "\<forall>r \<in> snd ` set (pending_approvals s). status (objects s ! r) = PENDING"
    unfolding store_inv_def by blast
  then show ?thesis by (simp add: clear_pending_approvals_def deref_def)
qed

theorem clear_pending_keeps_status_witness:
  "pending_approvals (clear_pending_approvals example_one_pending) = [] \<and>
   approval_history (clear_pending_approvals example_one_pending) = [0] \<and>
   0 \<in> snd ` set (pending_approvals example_one_pending) \<and>
   status (deref (clear_pending_approvals example_one_pending) 0) = PENDING"
proof -
  have p: "pending_approvals example_one_pending = [(''req-1'', 0)]"
    and h: "approval_history example_one_pending = []"
    by (simp_all add: example_one_pending_eval)
  have m: "0 \<in> snd ` set (pending_approvals example_one_pending)" by (simp add: p)
  from clear_pending_keeps_status[OF example_one_pending_def]
  have a: "pending_approvals (clear_pending_approvals example_one_pending) = []"
    and b: "approval_history (clear_pending_approvals example_one_pending) =
              approval_history example_one_pending @ map snd (pending_approvals example_one_pending)"
    and c: "\<forall>r \<in> snd ` set (pending_approvals example_one_pending).
              deref (clear_pending_approvals example_one_pending) r = deref example_one_pending r \<and>
              status (deref (clear_pending_approvals example_one_pending) r) = PENDING"
    by blast+
  from b have b': "approval_history (clear_pending_approvals example_one_pending) = [0]"
    by (simp add: p h)
  from c m have c': "status (deref (clear_pending_approvals example_one_pending) 0) = PENDING"
    by blast
  from a b' m c' show ?thesis by blast
qed

subsection \<open>Reading the history\<close>

text \<open>
  \<open>approval_history[-limit:]\<close>: for a positive limit this is the last \<open>limit\<close>
  entries (all of them when there are fewer); for limit 0 the slice is
  \<open>approval_history[0:]\<close>, the whole list.
\<close>

lemma get_approval_history_zero: "get_approval_history 0 s = approval_history s"
  by (simp add: get_approval_history_def py_slice_from_def)

lemma get_approval_history_positive:
  "0 < limit \<Longrightarrow>
     get_approval_history limit s =
       drop (length (approval_history s) - nat limit) (approval_history s)"
  by (auto simp: get_approval_history_def py_slice_from_def Let_def max_def nat_diff_distrib'
      intro!: arg_cong2[where f=drop])

text \<open>
  Claim C9. The claim asks for the empty sequence at limit 0. With two resolved
  requests in the history, \<open>get_approval_history 0\<close> returns both.
\<close>

theorem history_limit_zero_returns_all:
  "get_approval_history 0 example_two_resolved = [0, 1]"
  by (simp add: get_approval_history_def py_slice_from_def example_two_resolved_history)

section \<open>Properties of the todo list\<close>

lemma str_nat_1: "str_nat (Suc 0) = ''1''"
  by (simp add: str_nat.simps digit_def)

lemma scenario_A_output:
  "format_todos scenario_A =
     Inr (''Current todos:'' @ ''\<newline>'' @
          ''1. ['' @ check_mark @ ''] Review contract X (completed)'' @ ''\<newline>'')"
  by (simp add: scenario_A_def format_todos_def update_todo_def add_todo_def
      TodoListMiddleware_init_def str_nat_1)

lemma scenario_A_lines:
  "lines_of (projr (format_todos scenario_A)) =
     [''Current todos:'', ''1. ['' @ check_mark @ ''] Review contract X (completed)'', '''']"
  by (simp add: scenario_A_output check_mark_def)

text \<open>
  The text that \<open>format_todos\<close> returns starts with a header. Line 1 of the output
  of Scenario A is \<open>Current todos:\<close>, which holds neither the completed glyph nor
  the word \<open>completed\<close>.
\<close>

theorem scenario_A_first_line_counterexample:
  "lines_of (projr (format_todos scenario_A)) ! 0 = ''Current todos:'' \<and>
   \<not> sublist check_mark (lines_of (projr (format_todos scenario_A)) ! 0) \<and>
   \<not> sublist ''completed'' (lines_of (projr (format_todos scenario_A)) ! 0)"
proof -
  have l: "lines_of (projr (format_todos scenario_A)) ! 0 = ''Current todos:''"
    by (simp add: scenario_A_lines)
  have "CHR 0xE2 \<in> set check_mark" by (simp add: check_mark_def)
  moreover have "CHR 0xE2 \<notin> set ''Current todos:''" by simp
  ultimately have 1: "\<not> sublist check_mark ''Current todos:''"
    using set_mono_sublist by blast
  have "CHR ''p'' \<in> set ''completed''" by simp
  moreover have "CHR ''p'' \<notin> set ''Current todos:''" by simp
  ultimately have 2: "\<not> sublist ''completed'' ''Current todos:''"
    using set_mono_sublist by blast
  from l 1 2 show ?thesis by simp
qed

text \<open>
  Claim C8, amended. From the empty tracker, \<open>add_todo "Review contract X"\<close> (with the
  default status) and \<open>update_todo 0 "completed"\<close> make \<open>format_todos\<close> return a text
  of two lines: line 1 is the header \<open>Current todos:\<close>, and line 2, the line
  numbered \<open>1.\<close>, contains the completed glyph and the word \<open>completed\<close>. On the
  empty list \<open>format_todos\<close> returns the fixed text \<open>No todos yet.\<close>
\<close>

theorem scenario_A_render_lines:
  "format_todos scenario_A = Inr (projr (format_todos scenario_A)) \<and>
   lines_of (projr (format_todos scenario_A)) =
     [''Current todos:'', ''1. ['' @ check_mark @ ''] Review contract X (completed)'', ''''] \<and>
   sublist check_mark (lines_of (projr (format_todos scenario_A)) ! 1) \<and>
   sublist ''completed'' (lines_of (projr (format_todos scenario_A)) ! 1) \<and>
   format_todos TodoListMiddleware_init = Inr ''No todos yet.''"
proof -
  have 0: "format_todos scenario_A = Inr (projr (format_todos scenario_A))"
    by (simp add: scenario_A_output)
  have l: "lines_of (projr (format_todos scenario_A)) ! 1 =
             ''1. ['' @ check_mark @ ''] Review contract X (completed)''"
    by (simp add: scenario_A_lines)
  have 2: "sublist check_mark (''1. ['' @ check_mark @ ''] Review contract X (completed)'')"
    unfolding sublist_def by blast
  have 3: "sublist ''completed'' (''1. ['' @ check_mark @ ''] Review contract X (completed)'')"
    unfolding sublist_def
    by (rule exI[of _ "''1. ['' @ check_mark @ ''] Review contract X (''"], rule exI[of _ "'')''"]) simp
  have 5: "format_todos TodoListMiddleware_init = Inr ''No todos yet.''"
    by (simp add: format_todos_def TodoListMiddleware_init_def)
  from 0 scenario_A_lines 2 3 5 show ?thesis unfolding l by blast
qed

section \<open>Properties of the workspace\<close>

subsection \<open>Paths and the file system\<close>

lemma split_slash_nonempty: "split_slash p \<noteq> []"
  by (induction p) (auto split: list.splits)

lemma split_slash_append:
  "split_slash (a @ CHR ''/'' # b) = split_slash a @ split_slash b"
proof (induction a)
  case Nil
  then show ?case by simp
next
  case (Cons c cs)
  obtain w ws where w: "split_slash cs = w # ws"
    using split_slash_nonempty[of cs] by (cases "split_slash cs") auto
  show ?case using Cons w by simp
qed

lemma split_slash_no_slash: "CHR ''/'' \<notin> set n \<Longrightarrow> split_slash n = [n]"
  by (induction n) auto

lemma start_dir_full_path: "start_dir fs (b @ CHR ''/'' # f) = start_dir fs (b @ ''/'')"
  by (cases b) (simp_all add: start_dir_def)

lemma walk_append:
  "walk fs cur (xs @ ys) = (case walk fs cur xs of Inl e \<Rightarrow> Inl e | Inr d \<Rightarrow> walk fs d ys)"
proof (induction xs arbitrary: cur)
  case Nil
  then show ?case by simp
next
  case (Cons c cs)
  then show ?case by (simp split: option.splits node.splits)
qed

lemma walk_prefix:
  "''..'' \<notin> set cs \<Longrightarrow> walk fs cur cs = Inr d \<Longrightarrow> prefix cur d"
proof (induction cs arbitrary: cur)
  case Nil
  then show ?case by simp
next
  case (Cons c cs)
  show ?case
  proof (cases "c = [] \<or> c = ''.''")
    case True
    with Cons show ?thesis by auto
  next
    case False
    with Cons.prems have n: "nodes fs (cur @ [c]) = Some Dir" and w: "walk fs (cur @ [c]) cs = Inr d"
      by (auto split: option.splits node.splits)
    from Cons.prems(1) have "''..'' \<notin> set cs" by simp
    from Cons.IH[OF this w] show ?thesis by (rule append_prefixD)
  qed
qed

lemma walk_mono:
  assumes "\<And>q n. nodes fs q = Some n \<Longrightarrow> nodes fs' q = Some n"
  shows "walk fs cur cs = Inr d \<Longrightarrow> walk fs' cur cs = Inr d"
proof (induction cs arbitrary: cur)
  case Nil
  then show ?case by simp
next
  case (Cons c cs)
  show ?case
  proof (cases "c = [] \<or> c = ''.'' \<or> c = ''..''")
    case True
    with Cons show ?thesis by auto
  next
    case False
    with Cons.prems have n: "nodes fs (cur @ [c]) = Some Dir" and w: "walk fs (cur @ [c]) cs = Inr d"
      by (auto split: option.splits node.splits)
    from assms[OF n] Cons.IH[OF w] False show ?thesis by simp
  qed
qed

lemma os_open_write_effect:
  assumes "os_open_write fs p content = Inr fs'"
  shows "\<exists>d. walk fs (start_dir fs p) (butlast (split_slash p)) = Inr d \<and>
             fs' = fs\<lparr>nodes := (nodes fs)(d @ [last (split_slash p)] \<mapsto> File content)\<rparr>"
  using assms unfolding os_open_write_def
  by (auto simp: Let_def split: if_splits sum.splits option.splits node.splits)

lemma os_open_read_effect:
  assumes "os_open_read fs p = Inr content"
  shows "\<exists>d. walk fs (start_dir fs p) (butlast (split_slash p)) = Inr d \<and>
             nodes fs (d @ [last (split_slash p)]) = Some (File content)"
  using assms unfolding os_open_read_def
  by (auto simp: Let_def split: if_splits sum.splits option.splits node.splits)

text \<open>Where the directory part of a full path leads.\<close>

lemma full_path_directory:
  assumes root: "workspace_root self fs = Inr root"
    and nodots: "''..'' \<notin> set (split_slash file_path)"
    and w: "walk fs (start_dir fs (base_path self @ ''/'' @ file_path))
              (butlast (split_slash (base_path self @ ''/'' @ file_path))) = Inr d"
  shows "prefix root d"
proof -
  let ?b = "base_path self"
  have sp: "split_slash (?b @ ''/'' @ file_path) = split_slash ?b @ split_slash file_path"
    using split_slash_append[of ?b file_path] by simp
  have bl: "butlast (split_slash ?b @ split_slash file_path) =
              split_slash ?b @ butlast (split_slash file_path)"
    by (simp add: butlast_append split_slash_nonempty)
  have st: "start_dir fs (?b @ ''/'' @ file_path) = start_dir fs (?b @ ''/'')"
    using start_dir_full_path[of fs ?b file_path] by simp
  from w have "walk fs (start_dir fs (?b @ ''/''))
                 (split_slash ?b @ butlast (split_slash file_path)) = Inr d"
    by (simp only: sp bl st)
  then have w2: "walk fs root (butlast (split_slash file_path)) = Inr d"
    using root unfolding workspace_root_def by (simp add: walk_append)
  have "''..'' \<notin> set (butlast (split_slash file_path))"
    using nodots by (auto dest: in_set_butlastD)
  from walk_prefix[OF this w2] show ?thesis .
qed

lemma mkdir_p_keeps:
  "mkdir_p fs cur seen cs = (e, fs') \<Longrightarrow>
     cwd fs' = cwd fs \<and>
     (\<forall>q n. nodes fs q = Some n \<longrightarrow> nodes fs' q = Some n) \<and>
     (\<forall>q c. nodes fs' q = Some (File c) \<longrightarrow> nodes fs q = Some (File c))"
proof (induction cs arbitrary: fs cur seen)
  case Nil
  then show ?case by simp
next
  case (Cons c cs)
  show ?case
  proof (cases "c = [] \<or> c = ''.''")
    case True
    with Cons.prems have "mkdir_p fs cur (seen @ [c]) cs = (e, fs')" by simp
    then show ?thesis by (rule Cons.IH)
  next
    case nd: False
    show ?thesis
    proof (cases "c = ''..''")
      case True
      with Cons.prems nd have "mkdir_p fs (butlast cur) (seen @ [c]) cs = (e, fs')" by simp
      then show ?thesis by (rule Cons.IH)
    next
      case ndd: False
      show ?thesis
      proof (cases "CHR 0x00 \<in> set c")
        case True
        with Cons.prems nd ndd have "fs' = fs" by simp
        then show ?thesis by simp
      next
        case nz: False
      show ?thesis
      proof (cases "nodes fs (cur @ [c])")
        case None
        let ?fs1 = "fs\<lparr>nodes := (nodes fs)(cur @ [c] \<mapsto> Dir)\<rparr>"
        from Cons.prems nd ndd nz None have m: "mkdir_p ?fs1 (cur @ [c]) (seen @ [c]) cs = (e, fs')"
          by simp
        from Cons.IH[OF m]
        have a: "cwd fs' = cwd ?fs1"
          and b: "\<forall>q n. nodes ?fs1 q = Some n \<longrightarrow> nodes fs' q = Some n"
          and c: "\<forall>q c. nodes fs' q = Some (File c) \<longrightarrow> nodes ?fs1 q = Some (File c)"
          by blast+
        have b': "nodes fs' q = Some n" if "nodes fs q = Some n" for q n
        proof -
          from that None have "q \<noteq> cur @ [c]" by auto
          with that have "nodes ?fs1 q = Some n" by simp
          with b show ?thesis by blast
        qed
        have c': "nodes fs q = Some (File x)" if "nodes fs' q = Some (File x)" for q x
        proof -
          from c that have 1: "nodes ?fs1 q = Some (File x)" by blast
          show ?thesis
          proof (cases "q = cur @ [c]")
            case True with 1 show ?thesis by simp
          next
            case False with 1 show ?thesis by simp
          qed
        qed
        have a': "cwd fs' = cwd fs" using a by simp
        from a' b' c' show ?thesis by blast
      next
        case (Some nd')
        show ?thesis
        proof (cases nd')
          case (File x)
          with Cons.prems nd ndd nz Some have "fs' = fs" by (auto split: list.splits if_splits)
          then show ?thesis by simp
        next
          case Dir
          with Cons.prems nd ndd nz Some have m: "mkdir_p fs (cur @ [c]) (seen @ [c]) cs = (e, fs')"
            by simp
          then show ?thesis by (rule Cons.IH)
        qed
      qed
      qed
    qed
  qed
qed

lemma os_makedirs_keeps:
  assumes "os_makedirs fs name = (e, fs')"
  shows "cwd fs' = cwd fs \<and>
     (\<forall>q n. nodes fs q = Some n \<longrightarrow> nodes fs' q = Some n) \<and>
     (\<forall>q c. nodes fs' q = Some (File c) \<longrightarrow> nodes fs q = Some (File c))"
proof (cases "name = []")
  case True
  with assms have "fs' = fs" by (simp add: os_makedirs_def)
  then show ?thesis by simp
next
  case False
  with assms have "mkdir_p fs (start_dir fs name) [] (split_slash name) = (e, fs')"
    by (simp add: os_makedirs_def)
  then show ?thesis by (rule mkdir_p_keeps)
qed

subsection \<open>Evaluation of the example file system\<close>

lemma split_examples:
  "split_slash ''./data/agent_workspace'' = [''.'', ''data'', ''agent_workspace'']"
  "split_slash ''report.md'' = [''report.md'']"
  "split_slash ''../evil.txt'' = [''..'', ''evil.txt'']"
  "split_slash ''../secret.txt'' = [''..'', ''secret.txt'']"
  "split_slash ''notes/report.md'' = [''notes'', ''report.md'']"
  by simp_all

lemma example_root:
  "workspace_root example_mw example_fs = Inr [''app'', ''data'', ''agent_workspace'']"
  by (simp add: workspace_root_def example_mw_def default_base_path_def example_fs_def
      start_dir_def)

lemma example_full_paths:
  "split_slash (base_path example_mw @ ''/'' @ p) =
     [''.'', ''data'', ''agent_workspace''] @ split_slash p"
  using split_slash_append[of "base_path example_mw" p]
  by (simp add: example_mw_def default_base_path_def)

lemma repr_report_path:
  "py_repr ''./data/agent_workspace/report.md'' =
     [CHR 0x27] @ ''./data/agent_workspace/report.md'' @ [CHR 0x27]"
  by (simp add: py_repr_def repr_char_def Let_def)

lemma repr_quoted_path:
  "py_repr ''./data/agent_workspace/it's.md'' =
     [CHR 0x22] @ ''./data/agent_workspace/it's.md'' @ [CHR 0x22]"
  by (simp add: py_repr_def repr_char_def Let_def)

lemma ex_read_missing:
  "read_file example_mw ''report.md'' example_fs =
     ''Error reading file: [Errno 2] No such file or directory: '' @ [CHR 0x27] @
     ''./data/agent_workspace/report.md'' @ [CHR 0x27]"
  using repr_report_path
  by (simp add: read_file_def os_open_read_def example_mw_def default_base_path_def
      example_fs_def start_dir_def names_directory_def)

lemma ex_read_report:
  "read_file example_mw ''report.md'' example_fs_report =
     ''Error reading file: [Errno 2] No such file or directory: '' @ [CHR 0x27] @
     ''./data/agent_workspace/report.md'' @ [CHR 0x27]"
  using repr_report_path
  by (simp add: read_file_def os_open_read_def example_mw_def default_base_path_def
      example_fs_def example_fs_report_def start_dir_def names_directory_def)

lemma ex_read_secret:
  "read_file example_mw ''../secret.txt'' example_fs = ''api key''"
  by (simp add: read_file_def os_open_read_def example_mw_def default_base_path_def
      example_fs_def start_dir_def names_directory_def)

lemma ex_dirname:
  "dirname ''./data/agent_workspace/../evil.txt'' = ''./data/agent_workspace/..''"
  "dirname ''./data/agent_workspace/report.md'' = ''./data/agent_workspace''"
  "dirname ''./data/agent_workspace/notes/report.md'' = ''./data/agent_workspace/notes''"
  by (simp_all add: dirname_def)

lemma ex_write_evil:
  "fst (write_file example_mw ''../evil.txt'' ''x'' example_fs) =
     ''File written successfully: ../evil.txt''"
  "nodes (snd (write_file example_mw ''../evil.txt'' ''x'' example_fs))
     [''app'', ''data'', ''evil.txt''] = Some (File ''x'')"
  by (simp_all add: write_file_def os_makedirs_def os_open_write_def example_mw_def
      default_base_path_def example_fs_def start_dir_def names_directory_def ex_dirname)

lemma ex_write_report:
  "nodes (snd (write_file example_mw ''report.md'' ''# R'' example_fs))
     [''app'', ''data'', ''agent_workspace'', ''report.md''] = Some (File ''# R'')"
  "cwd (snd (write_file example_mw ''report.md'' ''# R'' example_fs)) = [''app'']"
  "nodes (snd (write_file example_mw ''report.md'' ''# R'' example_fs))
     [''app'', ''data'', ''agent_workspace''] = Some Dir"
  "nodes (snd (write_file example_mw ''report.md'' ''# R'' example_fs))
     [''app'', ''data''] = Some Dir"
  "nodes (snd (write_file example_mw ''report.md'' ''# R'' example_fs))
     [''app''] = Some Dir"
  by (simp_all add: write_file_def os_makedirs_def os_open_write_def example_mw_def
      default_base_path_def example_fs_def start_dir_def names_directory_def ex_dirname)


lemma start_dir_cwd: "cwd fs' = cwd fs \<Longrightarrow> start_dir fs' p = start_dir fs p"
  by (simp add: start_dir_def split: list.splits)

lemma ascii_path_no_null: "ascii_path p \<Longrightarrow> CHR 0x00 \<notin> set p"
  by (auto simp: ascii_path_def)

lemma os_open_read_missing:
  "CHR 0x00 \<notin> set p \<Longrightarrow> p \<noteq> [] \<Longrightarrow> walk fs (start_dir fs p) (butlast (split_slash p)) = Inr d \<Longrightarrow>
   \<not> names_directory (last (split_slash p)) \<Longrightarrow> nodes fs (d @ [last (split_slash p)]) = None \<Longrightarrow>
   os_open_read fs p = Inl (FileNotFoundError p)"
  by (simp add: os_open_read_def Let_def)

lemma os_open_read_walk_error:
  "CHR 0x00 \<notin> set p \<Longrightarrow> p \<noteq> [] \<Longrightarrow> walk fs (start_dir fs p) (butlast (split_slash p)) = Inl errno \<Longrightarrow>
   os_open_read fs p = Inl (walk_error errno p)"
  by (simp add: os_open_read_def)

text \<open>
  The full path of a file: its directory part is walked from the workspace root, and
  its last component is the last component of the file path.
\<close>

lemma full_path_walk:
  assumes root: "workspace_root self fs = Inr root"
  shows "walk fs (start_dir fs (base_path self @ ''/'' @ file_path))
           (butlast (split_slash (base_path self @ ''/'' @ file_path))) =
         walk fs root (butlast (split_slash file_path))"
    and "last (split_slash (base_path self @ ''/'' @ file_path)) = last (split_slash file_path)"
proof -
  let ?b = "base_path self"
  have sp: "split_slash (?b @ ''/'' @ file_path) = split_slash ?b @ split_slash file_path"
    using split_slash_append[of ?b file_path] by simp
  have bl: "butlast (split_slash ?b @ split_slash file_path) =
              split_slash ?b @ butlast (split_slash file_path)"
    by (simp add: butlast_append split_slash_nonempty)
  have st: "start_dir fs (?b @ ''/'' @ file_path) = start_dir fs (?b @ ''/'')"
    using start_dir_full_path[of fs ?b file_path] by simp
  have "walk fs (start_dir fs (?b @ ''/'')) (split_slash ?b @ butlast (split_slash file_path)) =
          walk fs root (butlast (split_slash file_path))"
    using root unfolding workspace_root_def by (simp add: walk_append)
  then show "walk fs (start_dir fs (?b @ ''/'' @ file_path))
           (butlast (split_slash (?b @ ''/'' @ file_path))) =
         walk fs root (butlast (split_slash file_path))"
    by (simp only: sp bl st)
  show "last (split_slash (?b @ ''/'' @ file_path)) = last (split_slash file_path)"
    unfolding sp by (simp add: split_slash_nonempty)
qed

lemma read_file_missing:
  assumes root: "workspace_root self fs = Inr root"
    and ascii: "ascii_path (base_path self @ ''/'' @ file_path)"
    and dir: "walk fs root (butlast (split_slash file_path)) = Inr d"
    and name: "\<not> names_directory (last (split_slash file_path))"
    and absent: "nodes fs (d @ [last (split_slash file_path)]) = None"
  shows "read_file self file_path fs =
           ''Error reading file: [Errno 2] No such file or directory: '' @
           py_repr (base_path self @ ''/'' @ file_path)"
proof -
  let ?full = "base_path self @ ''/'' @ file_path"
  note fp = full_path_walk[OF root, of file_path]
  have ne: "?full \<noteq> []" by simp
  have w: "walk fs (start_dir fs ?full) (butlast (split_slash ?full)) = Inr d"
    unfolding fp(1) by (rule dir)
  have nd: "\<not> names_directory (last (split_slash ?full))"
    unfolding fp(2) by (rule name)
  have ab: "nodes fs (d @ [last (split_slash ?full)]) = None"
    unfolding fp(2) by (rule absent)
  have "os_open_read fs ?full = Inl (FileNotFoundError ?full)"
    using ascii_path_no_null[OF ascii] ne w nd ab by (rule os_open_read_missing)
  then show ?thesis by (simp add: read_file_def)
qed

lemma read_file_walk_error:
  assumes root: "workspace_root self fs = Inr root"
    and ascii: "ascii_path (base_path self @ ''/'' @ file_path)"
    and dir: "walk fs root (butlast (split_slash file_path)) = Inl errno"
  shows "read_file self file_path fs =
           ''Error reading file: '' @
           str_exc (walk_error errno (base_path self @ ''/'' @ file_path))"
proof -
  let ?full = "base_path self @ ''/'' @ file_path"
  note fp = full_path_walk[OF root, of file_path]
  have ne: "?full \<noteq> []" by simp
  have w: "walk fs (start_dir fs ?full) (butlast (split_slash ?full)) = Inl errno"
    unfolding fp(1) by (rule dir)
  have "os_open_read fs ?full = Inl (walk_error errno ?full)"
    using ascii_path_no_null[OF ascii] ne w by (rule os_open_read_walk_error)
  then show ?thesis by (simp add: read_file_def)
qed

lemma write_file_outside_files:
  assumes root: "workspace_root self fs = Inr root"
    and nodots: "''..'' \<notin> set (split_slash file_path)"
    and out: "\<not> prefix root q"
  shows "(nodes (snd (write_file self file_path content fs)) q = Some (File c)) =
         (nodes fs q = Some (File c))"
proof -
  let ?full = "base_path self @ ''/'' @ file_path"
  obtain e fs1 where mk: "os_makedirs fs (dirname ?full) = (e, fs1)"
    by (cases "os_makedirs fs (dirname ?full)")
  from os_makedirs_keeps[OF mk]
  have cw: "cwd fs1 = cwd fs"
    and keep: "\<And>q n. nodes fs q = Some n \<Longrightarrow> nodes fs1 q = Some n"
    and nofile: "\<And>q c. nodes fs1 q = Some (File c) \<Longrightarrow> nodes fs q = Some (File c)"
    by blast+
  have same1: "(nodes fs1 q = Some (File c)) = (nodes fs q = Some (File c))"
    using keep nofile by blast
  show ?thesis
  proof (cases e)
    case (Some err)
    with mk have "snd (write_file self file_path content fs) = fs1"
      by (simp add: write_file_def)
    with same1 show ?thesis by simp
  next
    case None
    show ?thesis
    proof (cases "os_open_write fs1 ?full content")
      case (Inl err)
      with mk None have "snd (write_file self file_path content fs) = fs1"
        by (simp add: write_file_def)
      with same1 show ?thesis by simp
    next
      case (Inr fs2)
      from os_open_write_effect[OF Inr] obtain d where
        w: "walk fs1 (start_dir fs1 ?full) (butlast (split_slash ?full)) = Inr d"
        and fs2: "fs2 = fs1\<lparr>nodes := (nodes fs1)(d @ [last (split_slash ?full)] \<mapsto> File content)\<rparr>"
        by blast
      have "walk fs1 (start_dir fs (base_path self @ ''/'')) (split_slash (base_path self)) = Inr root"
        using root unfolding workspace_root_def by (rule walk_mono[rotated]) (rule keep)
      then have root1: "workspace_root self fs1 = Inr root"
        unfolding workspace_root_def by (simp add: start_dir_cwd[OF cw])
      have "prefix root d" using root1 nodots w by (rule full_path_directory)
      then have "prefix root (d @ [last (split_slash ?full)])" by (rule prefix_prefix)
      with out have "q \<noteq> d @ [last (split_slash ?full)]" by blast
      then have "nodes fs2 q = nodes fs1 q" by (simp add: fs2)
      moreover from mk None Inr have "snd (write_file self file_path content fs) = fs2"
        by (simp add: write_file_def)
      ultimately show ?thesis using same1 by simp
    qed
  qed
qed

lemma read_file_inside:
  assumes root: "workspace_root self fs = Inr root"
    and nodots: "''..'' \<notin> set (split_slash file_path)"
  shows "(\<exists>e. read_file self file_path fs = ''Error reading file: '' @ str_exc e) \<or>
         (\<exists>q. prefix root q \<and> nodes fs q = Some (File (read_file self file_path fs)))"
proof (cases "os_open_read fs (base_path self @ ''/'' @ file_path)")
  case (Inl e)
  then have "read_file self file_path fs = ''Error reading file: '' @ str_exc e"
    by (simp add: read_file_def)
  then show ?thesis by blast
next
  case (Inr c)
  let ?full = "base_path self @ ''/'' @ file_path"
  from os_open_read_effect[OF Inr] obtain d where
    w: "walk fs (start_dir fs ?full) (butlast (split_slash ?full)) = Inr d"
    and n: "nodes fs (d @ [last (split_slash ?full)]) = Some (File c)"
    by blast
  have "prefix root d" using root nodots w by (rule full_path_directory)
  then have "prefix root (d @ [last (split_slash ?full)])" by (rule prefix_prefix)
  moreover from Inr have "read_file self file_path fs = c" by (simp add: read_file_def)
  ultimately show ?thesis using n by blast
qed

subsection \<open>Reading a file that is not there\<close>

text \<open>
  A missing file is not reported by a result of its own: \<open>read_file\<close> returns a
  string, and a file that holds this very text gives the same return value.
\<close>

theorem read_missing_indistinguishable_counterexample:
  "nodes example_fs [''app'', ''data'', ''agent_workspace'', ''report.md''] = None \<and>
   nodes example_fs_report [''app'', ''data'', ''agent_workspace'', ''report.md''] =
     Some (File (''Error reading file: '' @
                 str_exc (FileNotFoundError ''./data/agent_workspace/report.md''))) \<and>
   read_file example_mw ''report.md'' example_fs =
     read_file example_mw ''report.md'' example_fs_report"
  by (simp add: ex_read_missing ex_read_report) (simp add: example_fs_def example_fs_report_def)

text \<open>
  Claim C6, amended. In a file system without symbolic links, permissions or limits
  on the length of names, and for a path of ASCII characters other than NUL,
  \<open>read_file\<close> on an absent file returns, as its ordinary string result, the text
  \<open>Error reading file: \<close> followed by the text of the exception and the
  \<open>repr\<close> of the full path: \<open>[Errno 2] No such file or directory:\<close> when the
  file itself or a directory on its path is missing,
  \<open>[Errno 20] Not a directory:\<close> when a regular file stands where the path needs
  a directory. There is no separate not-found result.
\<close>

theorem read_file_absent_returns_error_text:
  assumes "workspace_root self fs = Inr root"
    and "ascii_path (base_path self @ ''/'' @ file_path)"
  shows "(\<forall>d. walk fs root (butlast (split_slash file_path)) = Inr d \<and>
              \<not> names_directory (last (split_slash file_path)) \<and>
              nodes fs (d @ [last (split_slash file_path)]) = None \<longrightarrow>
              read_file self file_path fs =
                ''Error reading file: [Errno 2] No such file or directory: '' @
                py_repr (base_path self @ ''/'' @ file_path)) \<and>
         (walk fs root (butlast (split_slash file_path)) = Inl 2 \<longrightarrow>
              read_file self file_path fs =
                ''Error reading file: [Errno 2] No such file or directory: '' @
                py_repr (base_path self @ ''/'' @ file_path)) \<and>
         (walk fs root (butlast (split_slash file_path)) = Inl 20 \<longrightarrow>
              read_file self file_path fs =
                ''Error reading file: [Errno 20] Not a directory: '' @
                py_repr (base_path self @ ''/'' @ file_path))"
  using read_file_missing[OF assms]
    read_file_walk_error[OF assms, of 2]
    read_file_walk_error[OF assms, of 20]
  by (simp add: walk_error_def)

theorem read_file_absent_returns_error_text_witness:
  "workspace_root example_mw example_fs = Inr [''app'', ''data'', ''agent_workspace''] \<and>
   ascii_path (base_path example_mw @ ''/'' @ ''it's.md'') \<and>
   walk example_fs [''app'', ''data'', ''agent_workspace''] (butlast (split_slash ''it's.md'')) =
     Inr [''app'', ''data'', ''agent_workspace''] \<and>
   \<not> names_directory (last (split_slash ''it's.md'')) \<and>
   nodes example_fs ([''app'', ''data'', ''agent_workspace''] @ [last (split_slash ''it's.md'')]) = None \<and>
   read_file example_mw ''it's.md'' example_fs =
     ''Error reading file: [Errno 2] No such file or directory: '' @
     [CHR 0x22] @ ''./data/agent_workspace/it's.md'' @ [CHR 0x22] \<and>
   ascii_path (base_path example_mw @ ''/'' @ ''drafts/report.md'') \<and>
   walk example_fs [''app'', ''data'', ''agent_workspace'']
     (butlast (split_slash ''drafts/report.md'')) = Inl 2 \<and>
   read_file example_mw ''drafts/report.md'' example_fs =
     ''Error reading file: [Errno 2] No such file or directory: '' @
     [CHR 0x27] @ ''./data/agent_workspace/drafts/report.md'' @ [CHR 0x27] \<and>
   ascii_path (base_path example_mw @ ''/'' @ ''../secret.txt/x'') \<and>
   walk example_fs [''app'', ''data'', ''agent_workspace'']
     (butlast (split_slash ''../secret.txt/x'')) = Inl 20 \<and>
   read_file example_mw ''../secret.txt/x'' example_fs =
     ''Error reading file: [Errno 20] Not a directory: '' @
     [CHR 0x27] @ ''./data/agent_workspace/../secret.txt/x'' @ [CHR 0x27]"
proof -
  have b: "base_path example_mw = ''./data/agent_workspace''"
    by (simp add: example_mw_def default_base_path_def)
  have a1: "ascii_path (base_path example_mw @ ''/'' @ ''it's.md'')"
    and a2: "ascii_path (base_path example_mw @ ''/'' @ ''drafts/report.md'')"
    and a3: "ascii_path (base_path example_mw @ ''/'' @ ''../secret.txt/x'')"
    by (simp_all add: b ascii_path_def)
  have w1: "walk example_fs [''app'', ''data'', ''agent_workspace'']
              (butlast (split_slash ''it's.md'')) = Inr [''app'', ''data'', ''agent_workspace'']"
    and n1: "\<not> names_directory (last (split_slash ''it's.md''))"
    and m1: "nodes example_fs
               ([''app'', ''data'', ''agent_workspace''] @ [last (split_slash ''it's.md'')]) = None"
    by (simp_all add: names_directory_def example_fs_def)
  have w2: "walk example_fs [''app'', ''data'', ''agent_workspace'']
              (butlast (split_slash ''drafts/report.md'')) = Inl 2"
    by (simp add: example_fs_def)
  have w3: "walk example_fs [''app'', ''data'', ''agent_workspace'']
              (butlast (split_slash ''../secret.txt/x'')) = Inl 20"
    by (simp add: example_fs_def)
  have r2: "py_repr ''./data/agent_workspace/drafts/report.md'' =
              [CHR 0x27] @ ''./data/agent_workspace/drafts/report.md'' @ [CHR 0x27]"
    and r3: "py_repr ''./data/agent_workspace/../secret.txt/x'' =
              [CHR 0x27] @ ''./data/agent_workspace/../secret.txt/x'' @ [CHR 0x27]"
    by (simp_all add: py_repr_def repr_char_def Let_def)
  from read_file_absent_returns_error_text[OF example_root a1] w1 n1 m1
  have c1: "read_file example_mw ''it's.md'' example_fs =
     ''Error reading file: [Errno 2] No such file or directory: '' @
     py_repr (base_path example_mw @ ''/'' @ ''it's.md'')"
    by blast
  from read_file_absent_returns_error_text[OF example_root a2] w2
  have c2: "read_file example_mw ''drafts/report.md'' example_fs =
     ''Error reading file: [Errno 2] No such file or directory: '' @
     py_repr (base_path example_mw @ ''/'' @ ''drafts/report.md'')"
    by blast
  from read_file_absent_returns_error_text[OF example_root a3] w3
  have c3: "read_file example_mw ''../secret.txt/x'' example_fs =
     ''Error reading file: [Errno 20] Not a directory: '' @
     py_repr (base_path example_mw @ ''/'' @ ''../secret.txt/x'')"
    by blast
  have c1': "read_file example_mw ''it's.md'' example_fs =
     ''Error reading file: [Errno 2] No such file or directory: '' @
     [CHR 0x22] @ ''./data/agent_workspace/it's.md'' @ [CHR 0x22]"
    using c1 repr_quoted_path by (simp add: b)
  have c2': "read_file example_mw ''drafts/report.md'' example_fs =
     ''Error reading file: [Errno 2] No such file or directory: '' @
     [CHR 0x27] @ ''./data/agent_workspace/drafts/report.md'' @ [CHR 0x27]"
    using c2 r2 by (simp add: b)
  have c3': "read_file example_mw ''../secret.txt/x'' example_fs =
     ''Error reading file: [Errno 20] Not a directory: '' @
     [CHR 0x27] @ ''./data/agent_workspace/../secret.txt/x'' @ [CHR 0x27]"
    using c3 r3 by (simp add: b)
  from example_root a1 w1 n1 m1 c1' a2 w2 c2' a3 w3 c3' show ?thesis by blast
qed

subsection \<open>Paths that leave the workspace\<close>

text \<open>
  The full path is handed to the file system unchecked. With the workspace at
  \<open>/app/data/agent_workspace\<close>, writing \<open>../evil.txt\<close> creates
  \<open>/app/data/evil.txt\<close>, and reading \<open>../secret.txt\<close> returns the content of
  \<open>/app/data/secret.txt\<close>.
\<close>

theorem parent_segments_escape_counterexample:
  "workspace_root example_mw example_fs = Inr [''app'', ''data'', ''agent_workspace''] \<and>
   nodes example_fs [''app'', ''data'', ''evil.txt''] = None \<and>
   fst (write_file example_mw ''../evil.txt'' ''x'' example_fs) =
     ''File written successfully: ../evil.txt'' \<and>
   nodes (snd (write_file example_mw ''../evil.txt'' ''x'' example_fs))
     [''app'', ''data'', ''evil.txt''] = Some (File ''x'') \<and>
   \<not> prefix [''app'', ''data'', ''agent_workspace''] [''app'', ''data'', ''evil.txt''] \<and>
   nodes example_fs [''app'', ''data'', ''secret.txt''] = Some (File ''api key'') \<and>
   \<not> prefix [''app'', ''data'', ''agent_workspace''] [''app'', ''data'', ''secret.txt''] \<and>
   read_file example_mw ''../secret.txt'' example_fs = ''api key''"
  by (simp add: example_root ex_write_evil ex_read_secret) (simp add: example_fs_def)

text \<open>
  Claim C3, amended. In a file system without symbolic links, for a path none of whose
  segments is \<open>..\<close>: \<open>write_file\<close> creates, changes or removes no file outside
  the workspace root, and \<open>read_file\<close> returns either an error text or the content
  of a file inside the workspace root. A path with a \<open>..\<close> segment is not checked
  and can reach outside the root.
\<close>

theorem workspace_confined_without_parent_segments:
  assumes "workspace_root self fs = Inr root"
    and "''..'' \<notin> set (split_slash file_path)"
  shows "(\<forall>q c. \<not> prefix root q \<longrightarrow>
            (nodes (snd (write_file self file_path content fs)) q = Some (File c)) =
            (nodes fs q = Some (File c))) \<and>
         ((\<exists>e. read_file self file_path fs = ''Error reading file: '' @ str_exc e) \<or>
          (\<exists>q. prefix root q \<and> nodes fs q = Some (File (read_file self file_path fs))))"
  using write_file_outside_files[OF assms] read_file_inside[OF assms] by blast

theorem workspace_confined_without_parent_segments_witness:
  "workspace_root example_mw example_fs = Inr [''app'', ''data'', ''agent_workspace''] \<and>
   ''..'' \<notin> set (split_slash ''notes/report.md'') \<and>
   \<not> prefix [''app'', ''data'', ''agent_workspace''] [''app'', ''data'', ''secret.txt''] \<and>
   nodes (snd (write_file example_mw ''notes/report.md'' ''# R'' example_fs))
     [''app'', ''data'', ''secret.txt''] = Some (File ''api key'') \<and>
   nodes (snd (write_file example_mw ''notes/report.md'' ''# R'' example_fs))
     [''app'', ''data'', ''report.md''] \<noteq> Some (File ''# R'')"
proof -
  have 1: "''..'' \<notin> set (split_slash ''notes/report.md'')" by simp
  have 2: "\<not> prefix [''app'', ''data'', ''agent_workspace''] [''app'', ''data'', ''secret.txt'']"
    by simp
  have 3: "\<not> prefix [''app'', ''data'', ''agent_workspace''] [''app'', ''data'', ''report.md'']"
    by simp
  have 4: "nodes example_fs [''app'', ''data'', ''secret.txt''] = Some (File ''api key'')"
    by (simp add: example_fs_def)
  have 5: "nodes example_fs [''app'', ''data'', ''report.md''] \<noteq> Some (File ''# R'')"
    by (simp add: example_fs_def)
  from workspace_confined_without_parent_segments[OF example_root 1, of "''# R''"]
  have t: "\<And>q c. \<not> prefix [''app'', ''data'', ''agent_workspace''] q \<Longrightarrow>
            (nodes (snd (write_file example_mw ''notes/report.md'' ''# R'' example_fs)) q = Some (File c)) =
            (nodes example_fs q = Some (File c))"
    by blast
  from t[OF 2, of "''api key''"] t[OF 3, of "''# R''"] example_root 1 2 4 5
  show ?thesis by blast
qed

section \<open>Properties of a session: approval requests and the workspace\<close>





section \<open>Properties of the coordinator\<close>

lemma delegate_all_runs:
  "length (create_report_runs (snd (delegate_all ra rr ds s))) =
     length (create_report_runs s) + length (filter is_report_delegation ds) \<and>
   length (analysis_runs (snd (delegate_all ra rr ds s))) =
     length (analysis_runs s) + length (filter (\<lambda>d. \<not> is_report_delegation d) ds) \<and>
   length (fst (delegate_all ra rr ds s)) = length ds"
proof (induction ds arbitrary: s)
  case Nil
  then show ?case by simp
next
  case (Cons d ds)
  show ?case
  proof (cases d)
    case (ToAnalysis task)
    then show ?thesis
      using Cons[of "snd (delegate_to_analysis ra task s)"]
      by (simp add: delegate_to_analysis_def Let_def case_prod_beta)
  next
    case (ToCreateReport summary)
    then show ?thesis
      using Cons[of "snd (delegate_to_create_report rr summary s)"]
      by (simp add: delegate_to_create_report_def Let_def case_prod_beta)
  qed
qed

text \<open>
  Two delegations to the report agent in one session: its loop is entered twice and
  the second call returns the agent's output like the first.
\<close>

theorem create_report_delegated_twice_counterexample:
  "fst (delegate_all example_analysis_agent example_report_agent
          [ToCreateReport ''s1'', ToCreateReport ''s2''] coordinator_init) =
     [PyStr ''# Report'', PyStr ''# Report''] \<and>
   length (create_report_runs (snd (delegate_all example_analysis_agent example_report_agent
          [ToCreateReport ''s1'', ToCreateReport ''s2''] coordinator_init))) = 2"
  by (simp add: delegate_to_create_report_def example_report_agent_def coordinator_init_def
      dict_get_default_def Let_def case_prod_beta)

text \<open>
  Claim C1, amended. The delegation tools keep no quota. Every invocation enters the
  loop of its subordinate once and returns the subordinate's \<open>output\<close> (or the
  default text): after any sequence of delegations the loop of each subordinate has
  been entered exactly as often as its tool was invoked, and no invocation is
  refused. The report agent runs at most once only when the coordinator calls its
  tool at most once, as the tool description asks.
\<close>

theorem delegation_runs_on_every_call:
  "length (create_report_runs (snd (delegate_all ra rr ds s))) =
     length (create_report_runs s) + length (filter is_report_delegation ds) \<and>
   length (analysis_runs (snd (delegate_all ra rr ds s))) =
     length (analysis_runs s) + length (filter (\<lambda>d. \<not> is_report_delegation d) ds) \<and>
   length (fst (delegate_all ra rr ds s)) = length ds \<and>
   fst (delegate_to_create_report rr summary s) =
     dict_get_default
       (rr (''Create a comprehensive legal risk analysis report based on:'' @ ''\<newline>''
              @ ''\<newline>'' @ summary))
       ''output'' (PyStr ''Report created'') \<and>
   create_report_runs (snd (delegate_to_create_report rr summary s)) =
     create_report_runs s @
       [''Create a comprehensive legal risk analysis report based on:'' @ ''\<newline>''
              @ ''\<newline>'' @ summary] \<and>
   fst (delegate_to_analysis ra task s) =
     dict_get_default (ra task) ''output'' (PyStr ''Analysis completed'') \<and>
   analysis_runs (snd (delegate_to_analysis ra task s)) = analysis_runs s @ [task]"
  using delegate_all_runs[of ra rr ds s]
  by (simp add: delegate_to_create_report_def delegate_to_analysis_def Let_def)

end
